theory Spec2Isabelle
  imports Main
begin

section \<open>The data collector of senec2mqtt\<close>

text \<open>
  A shallow embedding of \<^verbatim>\<open>src/senec2mqtt/senec_data_collector.py\<close>.

  The class \<^verbatim>\<open>SenecDataCollector\<close> is a record of its four attributes. Everything the
  methods touch outside the object is a second record, the environment: the records
  written by the \<^verbatim>\<open>logging\<close> module (which are emitted even when the constructor
  raises), the clock that \<^verbatim>\<open>time.sleep\<close> advances, and the number of requests made
  to the device so far. A raised exception is the \<open>Inl\<close> of a sum.

  The device itself (\<^verbatim>\<open>pysenec\<close> behind \<^verbatim>\<open>asyncio.gather\<close>) is a parameter \<open>fetch\<close>:
  given the host and the index of the request, it says what
  \<^verbatim>\<open>loop.run_until_complete(asyncio.gather(run(host=...)))\<close> evaluates to.
  The raw status is an opaque type \<open>'a\<close>; it is a \<^verbatim>\<open>dict\<close>, never \<^verbatim>\<open>None\<close>.
\<close>

subsection \<open>Exceptions, log records, environment\<close>

datatype error =
    ValueError string
  | RuntimeError nat   \<comment> \<open>the message carries \<^verbatim>\<open>len(collected_data)\<close>\<close>
  | FetchError         \<comment> \<open>whatever the request to the device raises\<close>
  | Empty              \<comment> \<open>\<^verbatim>\<open>queue.Empty\<close>\<close>

datatype level = DEBUG | WARNING

record env =
  records :: "(level \<times> string) list"
  clock :: int
  fetch_calls :: nat

definition logging :: "level \<Rightarrow> string \<Rightarrow> env \<Rightarrow> env" where
  "logging lv msg e = e\<lparr>records := records e @ [(lv, msg)]\<rparr>"

definition interval_warning :: string where
  "interval_warning =
     ''The logging interval is below the recommended period time (1 min),'' @ [CHR 0x0A] @
     ''may this leads to trouble with the device connection to the cloud!''"

text \<open>\<^verbatim>\<open>time.sleep\<close> refuses a negative length and otherwise lets the time pass.\<close>

definition sleep :: "int \<Rightarrow> env \<Rightarrow> (error + unit) \<times> env" where
  "sleep secs e =
     (if secs < 0 then (Inl (ValueError ''sleep length must be non-negative''), e)
      else (Inr (), e\<lparr>clock := clock e + secs\<rparr>))"

subsection \<open>The thread-safe queue\<close>

text \<open>
  \<^verbatim>\<open>queue.Queue()\<close> is unbounded and first-in first-out: the oldest item is the head of
  the list. \<^verbatim>\<open>get(block=False)\<close> raises \<^verbatim>\<open>queue.Empty\<close> on an empty queue;
  \<^verbatim>\<open>get(block=True)\<close> waits there, which without a producer is forever.
\<close>

datatype 'r outcome = Return 'r | Raise error | Block

definition queue_put :: "'a list \<Rightarrow> 'a \<Rightarrow> 'a list" where
  "queue_put q x = q @ [x]"

definition queue_get :: "bool \<Rightarrow> 'a list \<Rightarrow> 'a outcome \<times> 'a list" where
  "queue_get block q =
     (case q of
        [] \<Rightarrow> (if block then (Block, q) else (Raise Empty, q))
      | x # rest \<Rightarrow> (Return x, rest))"

definition qsize :: "'a list \<Rightarrow> nat" where
  "qsize q = length q"

subsection \<open>The collector\<close>

record 'a collector =
  host_ip :: string
  interval_s :: int
  stop_event :: bool
  queue :: "'a list"

text \<open>
  \<^verbatim>\<open>__init__\<close>: the warning is written first, then the interval is checked; the stop
  event and the queue are created only when the check passes.
\<close>

definition init :: "string \<Rightarrow> int \<Rightarrow> env \<Rightarrow> (error + 'a collector) \<times> env" where
  "init senec_ip interval e =
     (let e1 = (if interval < 60 then logging WARNING interval_warning e else e)
      in if interval < 10 then (Inl (ValueError ''No interval below 10 sec allowed!''), e1)
         else (Inr \<lparr>host_ip = senec_ip, interval_s = interval,
                    stop_event = False, queue = []\<rparr>, e1))"

definition stop :: "'a collector \<Rightarrow> env \<Rightarrow> 'a collector \<times> env" where
  "stop c e = (c\<lparr>stop_event := True\<rparr>, logging DEBUG ''Stop event set'' e)"

text \<open>What one request to the device gives: an exception, or the list that
  \<^verbatim>\<open>asyncio.gather\<close> returns.\<close>

datatype 'a fetched = Fails | Gathered "'a list"

text \<open>
  \<^verbatim>\<open>_collect_data\<close>: calls \<^verbatim>\<open>self.stop()\<close> (under the comment \<^verbatim>\<open>todo: remove me\<close>),
  then asks the device, then checks that exactly one data set came back.
\<close>

definition collect_data ::
  "(string \<Rightarrow> nat \<Rightarrow> 'a fetched) \<Rightarrow> 'a collector \<Rightarrow> env \<Rightarrow> (error + 'a) \<times> 'a collector \<times> env"
where
  "collect_data fetch c e =
     (case stop c e of (c1, e1) \<Rightarrow>
        (let e2 = e1\<lparr>fetch_calls := Suc (fetch_calls e1)\<rparr> in
         case fetch (host_ip c1) (fetch_calls e1) of
           Fails \<Rightarrow> (Inl FetchError, c1, e2)
         | Gathered collected_data \<Rightarrow>
             (if length collected_data \<noteq> 1
              then (Inl (RuntimeError (length collected_data)), c1, e2)
              else (Inr (collected_data ! 0), c1, logging DEBUG ''data collected'' e2))))"

text \<open>
  The \<^verbatim>\<open>while\<close> loop of \<^verbatim>\<open>run\<close>. Nothing in it catches an exception, so one raised by
  \<^verbatim>\<open>_collect_data\<close> (or by \<^verbatim>\<open>time.sleep\<close>) ends the loop and the thread.
\<close>

function run_loop ::
  "(string \<Rightarrow> nat \<Rightarrow> 'a fetched) \<Rightarrow> 'a collector \<Rightarrow> env \<Rightarrow> (error + unit) \<times> 'a collector \<times> env"
where
  "run_loop fetch c e =
     (if stop_event c then (Inr (), c, e)
      else case collect_data fetch c e of
             (Inl err, c1, e1) \<Rightarrow> (Inl err, c1, e1)
           | (Inr d, c1, e1) \<Rightarrow>
               (let c2 = c1\<lparr>queue := queue_put (queue c1) d\<rparr> in
                case sleep (interval_s c2) e1 of
                  (Inl err, e2) \<Rightarrow> (Inl err, c2, e2)
                | (Inr u, e2) \<Rightarrow> run_loop fetch c2 e2))"
  by pat_completeness auto

termination run_loop
proof (relation "measure (\<lambda>(fetch, c, e). if stop_event c then 0 else 1)")
  show "wf (measure (\<lambda>(fetch, c, e). if stop_event c then 0 else (1::nat)))"
    by simp
next
  fix fetch :: "string \<Rightarrow> nat \<Rightarrow> 'a fetched" and c :: "'a collector" and e :: env
    and x1 x2 d c1 e1 c2 x1a e2 u
  assume "\<not> stop_event c"
    and "(x1, x2) = collect_data fetch c e"
    and "x1 = Inr d"
    and "(c1, e1) = x2"
    and "c2 = c1\<lparr>queue := queue_put (queue c1) d\<rparr>"
  then have "stop_event c2"
    by (auto simp: collect_data_def stop_def Let_def split: fetched.splits if_splits)
  with \<open>\<not> stop_event c\<close>
  show "((fetch, c2, e2), (fetch, c, e)) \<in> measure (\<lambda>(fetch, c, e). if stop_event c then 0 else 1)"
    by simp
qed

definition run ::
  "(string \<Rightarrow> nat \<Rightarrow> 'a fetched) \<Rightarrow> 'a collector \<Rightarrow> env \<Rightarrow> (error + unit) \<times> 'a collector \<times> env"
where
  "run fetch c e =
     (case run_loop fetch c (logging DEBUG ''collection thread started'' e) of
        (Inl err, c1, e1) \<Rightarrow> (Inl err, c1, e1)
      | (Inr u, c1, e1) \<Rightarrow> (Inr (), c1, logging DEBUG ''collection thread stopped'' e1))"

definition available_data :: "'a collector \<Rightarrow> nat" where
  "available_data c = qsize (queue c)"

definition get_data :: "bool \<Rightarrow> 'a collector \<Rightarrow> 'a option outcome \<times> 'a collector" where
  "get_data block c =
     (case queue_get block (queue c) of
        (Return x, q) \<Rightarrow> (Return (Some x), c\<lparr>queue := q\<rparr>)
      | (Raise err, q) \<Rightarrow>
          (if err = Empty then (Return None, c\<lparr>queue := q\<rparr>) else (Raise err, c\<lparr>queue := q\<rparr>))
      | (Block, q) \<Rightarrow> (Block, c\<lparr>queue := q\<rparr>))"

text \<open>
  \<^verbatim>\<open>get_all_data\<close>: the \<^verbatim>\<open>while True\<close> loop, with \<open>data_list\<close> as accumulator. It ends
  because every round that does not break takes one item out of the queue.
\<close>

function get_all_loop :: "'a list \<Rightarrow> 'a collector \<Rightarrow> 'a list outcome \<times> 'a collector" where
  "get_all_loop data_list c =
     (case get_data False c of
        (Return (Some data), c1) \<Rightarrow> get_all_loop (data_list @ [data]) c1
      | (Return None, c1) \<Rightarrow> (Return data_list, c1)
      | (Raise err, c1) \<Rightarrow> (Raise err, c1)
      | (Block, c1) \<Rightarrow> (Block, c1))"
  by pat_completeness auto

termination get_all_loop
proof (relation "measure (\<lambda>(data_list, c). length (queue c))")
  show "wf (measure (\<lambda>(data_list, c). length (queue c)))"
    by simp
next
  fix data_list :: "'a list" and c :: "'a collector" and x1 c1 x2 data
  assume "(x1, c1) = get_data False c" and "x1 = Return x2" and "x2 = Some data"
  then have "length (queue c1) < length (queue c)"
    by (auto simp: get_data_def queue_get_def split: list.splits if_splits)
  then show "((data_list @ [data], c1), (data_list, c)) \<in> measure (\<lambda>(data_list, c). length (queue c))"
    by simp
qed

definition get_all_data :: "'a collector \<Rightarrow> 'a list outcome \<times> 'a collector" where
  "get_all_data c = get_all_loop [] c"

text \<open>
  Both loops are unfolded by hand below, one round at a time, never by the simplifier.
\<close>

declare run_loop.simps [simp del]
declare get_all_loop.simps [simp del]

subsection \<open>A collector and an environment to evaluate on\<close>

text \<open>
  The collector that \<^verbatim>\<open>SenecDataCollector("192.168.178.49", 10)\<close> builds, holding
  numbers in place of the device's dictionaries, and an environment in which nothing has
  happened yet.
\<close>

definition example_collector :: "nat collector" where
  "example_collector =
     \<lparr>host_ip = ''192.168.178.49'', interval_s = 10, stop_event = False, queue = []\<rparr>"

definition example_env :: env where
  "example_env = \<lparr>records = [], clock = 0, fetch_calls = 0\<rparr>"

section \<open>What the methods compute\<close>

subsection \<open>Reading the queue\<close>

text \<open>A read that does not wait either finds the queue empty or takes its head.\<close>

lemma get_data_nonblocking:
  "get_data False c =
     (case queue c of [] \<Rightarrow> (Return None, c)
      | x # rest \<Rightarrow> (Return (Some x), c\<lparr>queue := rest\<rparr>))"
  by (simp add: get_data_def queue_get_def split: list.splits)

text \<open>
  The draining loop hands back what was collected so far followed by the whole queue, and
  leaves the queue empty. The accumulator and the collector both change from round to
  round, so both are generalised in the induction on the queue.
\<close>

lemma get_all_loop_drains:
  "get_all_loop data_list c = (Return (data_list @ queue c), c\<lparr>queue := []\<rparr>)"
proof (induction "queue c" arbitrary: data_list c)
  case Nil
  then have "queue c = []" by simp
  then show ?case
    by (subst get_all_loop.simps) (simp add: get_data_nonblocking)
next
  case (Cons x rest)
  from Cons.hyps(2) have q: "queue c = x # rest" by simp
  have "get_all_loop data_list c = get_all_loop (data_list @ [x]) (c\<lparr>queue := rest\<rparr>)"
    by (subst get_all_loop.simps) (simp add: get_data_nonblocking q)
  also have "\<dots> = (Return ((data_list @ [x]) @ rest), c\<lparr>queue := rest, queue := []\<rparr>)"
    using Cons.hyps(1) [of "c\<lparr>queue := rest\<rparr>" "data_list @ [x]"] by simp
  finally show ?case by (simp add: q)
qed

lemma get_all_data_drains:
  "get_all_data c = (Return (queue c), c\<lparr>queue := []\<rparr>)"
  by (simp add: get_all_data_def get_all_loop_drains)

subsection \<open>One round of the polling loop\<close>

lemma run_loop_stopped: "stop_event c \<Longrightarrow> run_loop fetch c e = (Inr (), c, e)"
  by (subst run_loop.simps) simp

text \<open>
  \<^verbatim>\<open>_collect_data\<close> spelled out by what the device answers. In each of the three rows the
  stop event is set and the request is counted.
\<close>

lemma collect_data_cases:
  "collect_data fetch c e =
     (case fetch (host_ip c) (fetch_calls e) of
        Fails \<Rightarrow> (Inl FetchError, c\<lparr>stop_event := True\<rparr>,
                   e\<lparr>records := records e @ [(DEBUG, ''Stop event set'')],
                     fetch_calls := Suc (fetch_calls e)\<rparr>)
      | Gathered xs \<Rightarrow>
          (if length xs \<noteq> 1
           then (Inl (RuntimeError (length xs)), c\<lparr>stop_event := True\<rparr>,
                   e\<lparr>records := records e @ [(DEBUG, ''Stop event set'')],
                     fetch_calls := Suc (fetch_calls e)\<rparr>)
           else (Inr (xs ! 0), c\<lparr>stop_event := True\<rparr>,
                   e\<lparr>records := records e @ [(DEBUG, ''Stop event set''), (DEBUG, ''data collected'')],
                     fetch_calls := Suc (fetch_calls e)\<rparr>)))"
  by (simp add: collect_data_def stop_def logging_def Let_def split: fetched.splits)

text \<open>
  A loop entered with the stop event clear runs its body once: the body sets the stop
  event, so the test at the top of the next round ends the loop.
\<close>

lemma run_loop_once:
  assumes "\<not> stop_event c"
  shows "run_loop fetch c e =
     (case collect_data fetch c e of
        (Inl err, c1, e1) \<Rightarrow> (Inl err, c1, e1)
      | (Inr d, c1, e1) \<Rightarrow>
          (let c2 = c1\<lparr>queue := queue_put (queue c1) d\<rparr> in
           case sleep (interval_s c2) e1 of
             (Inl err, e2) \<Rightarrow> (Inl err, c2, e2)
           | (Inr u, e2) \<Rightarrow> (Inr (), c2, e2)))"
proof -
  obtain r c1 e1 where cd: "collect_data fetch c e = (r, c1, e1)"
    by (cases "collect_data fetch c e") auto
  have st: "stop_event c1"
    using cd by (auto simp: collect_data_cases split: fetched.splits if_splits)
  show ?thesis
    using assms st
    by (subst run_loop.simps)
       (auto simp: cd Let_def run_loop_stopped split: sum.splits prod.splits)
qed


lemma run_cases:
  assumes "\<not> stop_event c"
  shows "run fetch c e =
     (case collect_data fetch c (logging DEBUG ''collection thread started'' e) of
        (Inl err, c1, e1) \<Rightarrow> (Inl err, c1, e1)
      | (Inr d, c1, e1) \<Rightarrow>
          (let c2 = c1\<lparr>queue := queue_put (queue c1) d\<rparr> in
           case sleep (interval_s c2) e1 of
             (Inl err, e2) \<Rightarrow> (Inl err, c2, e2)
           | (Inr u, e2) \<Rightarrow> (Inr (), c2, logging DEBUG ''collection thread stopped'' e2)))"
  using assms
  by (simp add: run_def run_loop_once Let_def split: prod.splits sum.splits)

subsection \<open>Calling stop repeatedly\<close>

text \<open>
  \<open>n\<close> calls of \<^verbatim>\<open>stop()\<close> in a row: the stop event is set by the first, and each call
  writes its debug record.
\<close>

lemma stop_funpow:
  "((\<lambda>(c, e). stop c e) ^^ n) (c, e) =
     (if n = 0 then c else c\<lparr>stop_event := True\<rparr>,
      e\<lparr>records := records e @ replicate n (DEBUG, ''Stop event set'')\<rparr>)"
proof (induction n)
  case 0
  show ?case by simp
next
  case (Suc n)
  show ?case
  proof -
    have "((\<lambda>(c, e). stop c e) ^^ Suc n) (c, e) =
        stop (if n = 0 then c else c\<lparr>stop_event := True\<rparr>)
          (e\<lparr>records := records e @ replicate n (DEBUG, ''Stop event set'')\<rparr>)"
      by (simp add: Suc.IH)
    then show ?thesis
      by (simp add: stop_def logging_def replicate_append_same)
  qed
qed

section \<open>The properties of the specification\<close>

subsection \<open>The polling loop\<close>

text \<open>
  C1. The specification asks that, with a device that never fails, \<open>N\<close> elapsed interval
  periods leave \<open>N\<close> entries in the queue (give or take one), one per request and in the
  order of the requests. The code does not do that: \<^verbatim>\<open>_collect_data\<close> calls
  \<^verbatim>\<open>self.stop()\<close>, under the comment \<^verbatim>\<open>todo: remove me\<close>, so the loop that the docstring
  of \<^verbatim>\<open>run\<close> calls periodic runs once. What the code does instead, for every collector
  that is not stopped and has a non-negative interval, and every device that answers the
  \<open>i\<close>-th request with the single data set \<open>f i\<close>: \<^verbatim>\<open>run\<close> returns after exactly one
  request, one entry put at the end of the queue and one interval slept. The queue depth
  is 1 however many periods pass afterwards, which for three periods is not within one
  of 3.
\<close>

theorem run_one_cycle_only:
  assumes "\<not> stop_event c" and "0 \<le> interval_s c"
  shows "run (\<lambda>host i. Gathered [f i]) c e =
     (Inr (),
      c\<lparr>stop_event := True, queue := queue c @ [f (fetch_calls e)]\<rparr>,
      e\<lparr>records := records e @
           [(DEBUG, ''collection thread started''), (DEBUG, ''Stop event set''),
            (DEBUG, ''data collected''), (DEBUG, ''collection thread stopped'')],
        clock := clock e + interval_s c,
        fetch_calls := Suc (fetch_calls e)\<rparr>)"
  using assms
  by (simp add: run_cases collect_data_cases logging_def sleep_def queue_put_def Let_def)

text \<open>
  At the example collector, with a device answering 1, 2, 3, ...: one entry, one request,
  the thread over after 10 seconds, and a depth that is less than \<open>3 - 1\<close>.
\<close>

theorem run_one_cycle_only_witness:
  "\<not> stop_event example_collector \<and> 0 \<le> interval_s example_collector \<and>
   (case run (\<lambda>host i. Gathered [Suc i]) example_collector example_env of
      (r, c, e) \<Rightarrow> r = Inr () \<and> queue c = [1] \<and> available_data c = 1 \<and>
        fetch_calls e = 1 \<and> clock e = 10 \<and> \<not> (3 - 1 \<le> available_data c))"
  using run_one_cycle_only [of example_collector Suc example_env]
  by (simp add: example_collector_def example_env_def available_data_def qsize_def)

text \<open>
  C3. Every call of the fetch cycle sets the stop event, whatever the device answers, and
  does so before the request: the record \<^verbatim>\<open>Stop event set\<close> is written first, the record
  \<^verbatim>\<open>data collected\<close> after it and only on success. So \<^verbatim>\<open>run\<close> always returns with the
  stop event set, makes one request when it is started with the stop event clear (none
  otherwise), and the queue grows by at most one entry.
\<close>

theorem collect_data_stops_run_at_most_one_cycle:
  "(case collect_data fetch c e of
      (r, c1, e1) \<Rightarrow> stop_event c1 \<and>
        records e1 = records e @ (DEBUG, ''Stop event set'') #
          (case r of Inl err \<Rightarrow> [] | Inr d \<Rightarrow> [(DEBUG, ''data collected'')])) \<and>
   (case run fetch c e of
      (r, c1, e1) \<Rightarrow> stop_event c1 \<and>
        fetch_calls e1 = (if stop_event c then fetch_calls e else Suc (fetch_calls e)) \<and>
        length (queue c1) \<le> Suc (length (queue c)))"
proof -
  have A: "case collect_data fetch c e of
      (r, c1, e1) \<Rightarrow> stop_event c1 \<and>
        records e1 = records e @ (DEBUG, ''Stop event set'') #
          (case r of Inl err \<Rightarrow> [] | Inr d \<Rightarrow> [(DEBUG, ''data collected'')])"
    by (simp add: collect_data_cases split: fetched.splits)
  have B: "case run fetch c e of
      (r, c1, e1) \<Rightarrow> stop_event c1 \<and>
        fetch_calls e1 = (if stop_event c then fetch_calls e else Suc (fetch_calls e)) \<and>
        length (queue c1) \<le> Suc (length (queue c))"
  proof (cases "stop_event c")
    case True
    then show ?thesis
      by (simp add: run_def run_loop_stopped logging_def)
  next
    case False
    then show ?thesis
      by (simp add: run_cases collect_data_cases logging_def sleep_def queue_put_def Let_def
               split: fetched.splits)
  qed
  from A B show ?thesis by simp
qed

text \<open>
  C2. The specification says that an error inside a fetch cycle stays inside the loop,
  which goes on to the next round. In the code nothing catches it. At the example
  collector, with a device that fails, \<^verbatim>\<open>run\<close> ends with the device's exception after
  one request, without the record \<^verbatim>\<open>collection thread stopped\<close>.
\<close>

theorem run_fetch_failure_escapes:
  "run (\<lambda>host i. Fails) example_collector example_env =
     (Inl FetchError, example_collector\<lparr>stop_event := True\<rparr>,
      \<lparr>records = [(DEBUG, ''collection thread started''), (DEBUG, ''Stop event set'')],
        clock = 0, fetch_calls = 1\<rparr>)"
  by (simp add: run_cases collect_data_cases logging_def example_collector_def example_env_def)

text \<open>
  C2, as the code has it. When the loop is entered with the stop event clear and the
  device fails, or \<^verbatim>\<open>asyncio.gather\<close> gives other than exactly one data set, the error
  leaves \<^verbatim>\<open>_collect_data\<close> and \<^verbatim>\<open>run\<close>: the thread ends with that error, the queue is
  as it was, and no time was slept. The consumer does not see the error: \<^verbatim>\<open>get_data\<close>
  and \<^verbatim>\<open>get_all_data\<close> raise nothing, in any state.
\<close>

theorem run_error_propagates:
  assumes "\<not> stop_event c"
    and "fetch (host_ip c) (fetch_calls e) = Fails \<or>
         (\<exists>xs. fetch (host_ip c) (fetch_calls e) = Gathered xs \<and> length xs \<noteq> 1)"
  shows "run fetch c e =
     (Inl (case fetch (host_ip c) (fetch_calls e) of
             Fails \<Rightarrow> FetchError | Gathered xs \<Rightarrow> RuntimeError (length xs)),
      c\<lparr>stop_event := True\<rparr>,
      e\<lparr>records := records e @
           [(DEBUG, ''collection thread started''), (DEBUG, ''Stop event set'')],
        fetch_calls := Suc (fetch_calls e)\<rparr>) \<and>
     (\<forall>block c' err. fst (get_data block (c' :: 'a collector)) \<noteq> Raise err) \<and>
     (\<forall>c' err. fst (get_all_data (c' :: 'a collector)) \<noteq> Raise err)"
proof -
  have "fst (get_data block c') \<noteq> Raise err" for block and c' :: "'a collector" and err
    by (simp add: get_data_def queue_get_def split: list.splits)
  moreover have "fst (get_all_data c') \<noteq> Raise err" for c' :: "'a collector" and err
    by (simp add: get_all_data_drains)
  moreover have "run fetch c e =
     (Inl (case fetch (host_ip c) (fetch_calls e) of
             Fails \<Rightarrow> FetchError | Gathered xs \<Rightarrow> RuntimeError (length xs)),
      c\<lparr>stop_event := True\<rparr>,
      e\<lparr>records := records e @
           [(DEBUG, ''collection thread started''), (DEBUG, ''Stop event set'')],
        fetch_calls := Suc (fetch_calls e)\<rparr>)"
    using assms
    by (auto simp: run_cases collect_data_cases logging_def)
  ultimately show ?thesis by blast
qed

text \<open>
  An empty answer of \<^verbatim>\<open>asyncio.gather\<close> ends the thread with the \<^verbatim>\<open>RuntimeError\<close>, a
  failing first request with the device's exception.
\<close>

theorem run_error_propagates_witness:
  "\<not> stop_event example_collector \<and>
   run (\<lambda>host i. Gathered []) example_collector example_env =
     (Inl (RuntimeError 0), example_collector\<lparr>stop_event := True\<rparr>,
      \<lparr>records = [(DEBUG, ''collection thread started''), (DEBUG, ''Stop event set'')],
        clock = 0, fetch_calls = 1\<rparr>) \<and>
   run (\<lambda>host i. if i = 0 then Fails else Gathered [i]) example_collector example_env =
     (Inl FetchError, example_collector\<lparr>stop_event := True\<rparr>,
      \<lparr>records = [(DEBUG, ''collection thread started''), (DEBUG, ''Stop event set'')],
        clock = 0, fetch_calls = 1\<rparr>) \<and>
   fst (get_data False (example_collector\<lparr>stop_event := True\<rparr>)) \<noteq> Raise FetchError"
proof -
  have a: "\<not> stop_event example_collector"
    by (simp add: example_collector_def)
  have b: "run (\<lambda>host i. Gathered []) example_collector example_env =
     (Inl (RuntimeError 0), example_collector\<lparr>stop_event := True\<rparr>,
      \<lparr>records = [(DEBUG, ''collection thread started''), (DEBUG, ''Stop event set'')],
        clock = 0, fetch_calls = 1\<rparr>)"
    using run_error_propagates [OF a, of "\<lambda>host i. Gathered []" example_env]
    by (auto simp: example_env_def)
  have c: "run (\<lambda>host i. if i = 0 then Fails else Gathered [i]) example_collector example_env =
     (Inl FetchError, example_collector\<lparr>stop_event := True\<rparr>,
      \<lparr>records = [(DEBUG, ''collection thread started''), (DEBUG, ''Stop event set'')],
        clock = 0, fetch_calls = 1\<rparr>)"
    using run_error_propagates [OF a, of "\<lambda>host i. if i = 0 then Fails else Gathered [i]" example_env]
    by (auto simp: example_env_def)
  have d: "fst (get_data False (example_collector\<lparr>stop_event := True\<rparr>)) \<noteq> Raise FetchError"
    using run_error_propagates [OF a, of "\<lambda>host i. Gathered []" example_env]
    by (auto simp: example_env_def)
  from a b c d show ?thesis by blast
qed

subsection \<open>Construction\<close>

text \<open>
  C4. With an interval of at least 10 seconds the constructor returns a collector (with
  the host and interval given, the stop event clear and an empty queue); with an interval
  below 10 seconds it raises the \<^verbatim>\<open>ValueError\<close> and there is no collector.
\<close>

theorem init_interval_check:
  "(10 \<le> interval \<longrightarrow>
      fst (init senec_ip interval e) =
        Inr \<lparr>host_ip = senec_ip, interval_s = interval, stop_event = False, queue = []\<rparr>) \<and>
   (interval < 10 \<longrightarrow>
      fst (init senec_ip interval e) = Inl (ValueError ''No interval below 10 sec allowed!''))"
  by (simp add: init_def Let_def)

text \<open>Intervals of 10 and of 9 seconds.\<close>

theorem init_interval_check_witness:
  "(10::int) \<le> 10 \<and> (9::int) < 10 \<and>
   fst (init ''192.168.178.49'' 10 example_env) = Inr example_collector \<and>
   fst (init ''192.168.178.49'' 9 example_env) =
     (Inl (ValueError ''No interval below 10 sec allowed!'') :: error + nat collector)"
  using init_interval_check [of 10 "''192.168.178.49''" example_env, where ?'a = nat]
    init_interval_check [of 9 "''192.168.178.49''" example_env, where ?'a = nat]
  by (simp add: example_collector_def)

text \<open>
  C5. With an interval from 10 up to, not including, 60 seconds the constructor writes the
  warning, and only that; with an interval of 60 seconds or more it writes nothing and
  leaves the environment as it was.
\<close>

theorem init_warning:
  "(10 \<le> interval \<and> interval < 60 \<longrightarrow>
      records (snd (init senec_ip interval e :: (error + 'a collector) \<times> env)) =
        records e @ [(WARNING, interval_warning)]) \<and>
   (60 \<le> interval \<longrightarrow>
      snd (init senec_ip interval e :: (error + 'a collector) \<times> env) = e)"
  by (simp add: init_def Let_def logging_def)

text \<open>Intervals of 30 and of 60 seconds.\<close>

theorem init_warning_witness:
  "(10::int) \<le> 30 \<and> (30::int) < 60 \<and> (60::int) \<le> 60 \<and>
   records (snd (init ''192.168.178.49'' 30 example_env :: (error + nat collector) \<times> env)) =
     [(WARNING, interval_warning)] \<and>
   records (snd (init ''192.168.178.49'' 60 example_env :: (error + nat collector) \<times> env)) = []"
  using init_warning [of 30 "''192.168.178.49''" example_env, where ?'a = nat]
    init_warning [of 60 "''192.168.178.49''" example_env, where ?'a = nat]
  by (simp add: example_env_def)

text \<open>
  C9. With an interval below 10 seconds the warning is written as well: the test against
  60 comes first, so the constructor raises with the warning already in the log.
\<close>

theorem init_warns_before_raising:
  "interval < 10 \<Longrightarrow>
   init senec_ip interval e =
     (Inl (ValueError ''No interval below 10 sec allowed!''),
      e\<lparr>records := records e @ [(WARNING, interval_warning)]\<rparr>)"
  by (simp add: init_def Let_def logging_def)

text \<open>An interval of 5 seconds.\<close>

theorem init_warns_before_raising_witness:
  "(5::int) < 10 \<and>
   (init ''192.168.178.49'' 5 example_env :: (error + nat collector) \<times> env) =
     (Inl (ValueError ''No interval below 10 sec allowed!''),
      \<lparr>records = [(WARNING, interval_warning)], clock = 0, fetch_calls = 0\<rparr>)"
  using init_warns_before_raising [of 5 "''192.168.178.49''" example_env, where ?'a = nat]
  by (simp add: example_env_def)

subsection \<open>The consumer's side\<close>

text \<open>
  C6. \<^verbatim>\<open>get_data(block=False)\<close> on an empty queue returns \<^verbatim>\<open>None\<close>: it neither waits nor
  raises, and the collector is unchanged. On a queue that is not empty it returns the
  oldest item and takes it out of the queue.
\<close>

theorem get_data_nonblocking_result:
  "(queue c = [] \<longrightarrow> get_data False c = (Return None, c)) \<and>
   (queue c \<noteq> [] \<longrightarrow>
      get_data False c = (Return (Some (hd (queue c))), c\<lparr>queue := tl (queue c)\<rparr>))"
  by (cases "queue c") (simp_all add: get_data_nonblocking)

text \<open>The empty example collector, and the same with 7 and 8 in its queue.\<close>

theorem get_data_nonblocking_result_witness:
  "queue example_collector = [] \<and>
   get_data False example_collector = (Return None, example_collector) \<and>
   queue (example_collector\<lparr>queue := [7, 8]\<rparr>) \<noteq> [] \<and>
   get_data False (example_collector\<lparr>queue := [7, 8]\<rparr>) =
     (Return (Some 7), example_collector\<lparr>queue := [8]\<rparr>)"
  using get_data_nonblocking_result [of example_collector]
    get_data_nonblocking_result [of "example_collector\<lparr>queue := [7, 8]\<rparr>"]
  by (simp add: example_collector_def)

text \<open>
  C7. After the items \<open>xs\<close> have been put into a collector's queue one by one,
  \<^verbatim>\<open>get_all_data()\<close> returns what the queue held before followed by \<open>xs\<close>, in the order
  they were put; called again at once, it returns the empty list.
\<close>

theorem get_all_data_fifo:
  "(case get_all_data (foldl (\<lambda>c x. c\<lparr>queue := queue_put (queue c) x\<rparr>) c xs) of
      (r, c1) \<Rightarrow> r = Return (queue c @ xs) \<and> fst (get_all_data c1) = Return [])"
proof -
  have "queue (foldl (\<lambda>c x. c\<lparr>queue := queue_put (queue c) x\<rparr>) c xs) = queue c @ xs"
    by (induction xs arbitrary: c) (simp_all add: queue_put_def)
  then show ?thesis
    by (simp add: get_all_data_drains)
qed

text \<open>
  C8. Any number of further calls of \<^verbatim>\<open>stop()\<close> leaves the collector as the first call
  left it. (Every call also writes the debug record \<^verbatim>\<open>Stop event set\<close>; that goes to the
  log, not to the collector, see \<open>stop_funpow\<close>.)
\<close>

theorem stop_idempotent:
  "fst (((\<lambda>(c, e). stop c e) ^^ Suc n) (c, e)) = fst (stop c e) \<and>
   fst (stop (fst (stop c e)) (snd (stop c e))) = fst (stop c e)"
  by (simp only: stop_funpow) (simp add: stop_def)

text \<open>
  C10. Right after \<^verbatim>\<open>get_all_data()\<close>, with no producer running, the queue is empty:
  \<^verbatim>\<open>available_data()\<close> is 0 and \<^verbatim>\<open>get_data(block=False)\<close> returns \<^verbatim>\<open>None\<close>.
\<close>

theorem get_all_data_leaves_empty:
  "(case get_all_data c of
      (r, c1) \<Rightarrow> available_data c1 = 0 \<and> get_data False c1 = (Return None, c1))"
  by (simp add: get_all_data_drains available_data_def qsize_def get_data_nonblocking)

end
